theory Spec2Isabelle
  imports Complex_Main "HOL-Library.Multiset" "HOL-Library.Word"
begin

section \<open>Errors and cell values\<close>

text \<open>
  The Python exceptions that the modelled functions can raise. A function that can raise
  returns \<open>error + 'a\<close>, with \<open>Inl\<close> for the exception.
\<close>

datatype error = AttributeError | IndexError | ZeroDivisionError | KeyError | TypeError | ValueError

text \<open>
  The value of one cell of an attribute column. \<open>NaN\<close> is \<open>np.nan\<close>, the placeholder
  that \<open>mask['meff'] = np.nan\<close> stores. Areas and the index value are Python floats; they
  are modelled as real numbers, so rounding is not part of the model. \<open>Num\<close> is an integer.
\<close>

datatype pyval = NaN | Float real | Str string | Num int

section \<open>calculate.py: the modified effective mesh size\<close>

subsection \<open>GeoDataFrames and the heap of objects\<close>

datatype crs = CRS (to_epsg: "int option")

text \<open>
  A GeoDataFrame: the index labels of its rows, the geometry of each row, the attribute
  columns (name and values, in column order) and the coordinate reference system.
  In a well-formed frame every column and the geometry list are as long as the index.
\<close>

record 'g gdf =
  index :: "int list"
  geometry :: "'g list"
  columns :: "(string \<times> pyval list) list"
  crs :: "crs option"

definition wf_gdf :: "'g gdf \<Rightarrow> bool" where
  "wf_gdf df \<longleftrightarrow>
     length (geometry df) = length (index df) \<and>
     list_all (\<lambda>(n, c). length c = length (index df)) (columns df)"

text \<open>
  Python passes objects by reference. The heap maps a reference to the frame stored there;
  references below \<open>fresh\<close> are allocated.
\<close>

record 'g heap =
  objs :: "nat \<Rightarrow> 'g gdf"
  fresh :: nat

text \<open>\<open>mask.copy()\<close>: a new object with the same contents.\<close>

definition copy :: "'g heap \<Rightarrow> nat \<Rightarrow> 'g heap \<times> nat" where
  "copy h r = (h\<lparr>objs := (objs h)(fresh h := objs h r), fresh := Suc (fresh h)\<rparr>, fresh h)"

text \<open>
  \<open>df[col] = v\<close> with a scalar \<open>v\<close>: the column \<open>col\<close> is filled with \<open>v\<close>; it is
  added as the last column when the frame has none of that name.
\<close>

definition setitem :: "'g gdf \<Rightarrow> string \<Rightarrow> pyval \<Rightarrow> 'g gdf" where
  "setitem df col v =
     (let filled = replicate (length (index df)) v
      in if col \<in> fst ` set (columns df)
         then df\<lparr>columns := map (\<lambda>(n, c). if n = col then (n, filled) else (n, c)) (columns df)\<rparr>
         else df\<lparr>columns := columns df @ [(col, filled)]\<rparr>)"

text \<open>
  \<open>df.at[label, col] = v\<close>: the cell of column \<open>col\<close> in every row labelled \<open>label\<close>
  receives \<open>v\<close>. \<open>meff\<close> calls it only with a label and a column that the frame has.
\<close>

definition at_set :: "'g gdf \<Rightarrow> int \<Rightarrow> string \<Rightarrow> pyval \<Rightarrow> 'g gdf" where
  "at_set df label col v =
     df\<lparr>columns :=
          map (\<lambda>(n, c). if n = col
                 then (n, map (\<lambda>(i, x). if i = label then v else x) (zip (index df) c))
                 else (n, c))
              (columns df)\<rparr>"

text \<open>\<open>df.itertuples()\<close>, as far as \<open>meff\<close> reads it: \<open>cell.Index\<close> and \<open>cell.geometry\<close>.\<close>

definition itertuples :: "'g gdf \<Rightarrow> (int \<times> 'g) list" where
  "itertuples df = zip (index df) (geometry df)"

text \<open>\<open>series.append(other)\<close> of pandas returns a new series and leaves both operands as they are.\<close>

definition append_series :: "'g list \<Rightarrow> 'g list \<Rightarrow> 'g list" where
  "append_series s other = s @ other"

text \<open>\<open>series.iloc[idx]\<close> with a list of positions raises IndexError on a position out of range.\<close>

definition iloc :: "'g list \<Rightarrow> nat list \<Rightarrow> error + 'g list" where
  "iloc s idx = (if list_all (\<lambda>i. i < length s) idx then Inr (map (\<lambda>i. s ! i) idx) else Inl IndexError)"

subsection \<open>The geometry library\<close>

text \<open>
  The computational geometry is done by shapely and geopandas, which are not part of the
  repository. Their operations are parameters of the model: \<open>'g\<close> is the type of
  geometries and \<open>'b\<close> the type of bounding boxes.
\<close>

record ('g, 'b) geos =
  area :: "'g \<Rightarrow> real"
  intersection :: "'g \<Rightarrow> 'g \<Rightarrow> 'g"
  intersects :: "'g \<Rightarrow> 'g \<Rightarrow> bool"
  bounds :: "'g \<Rightarrow> 'b"
  boundary :: "'g \<Rightarrow> 'g"
  unary_union :: "'g list \<Rightarrow> 'g"
  polygonize_full :: "'g list \<Rightarrow> 'g \<times> 'g \<times> 'g \<times> 'g"
  explode :: "'g list \<Rightarrow> 'g list"
  sindex_intersection :: "'g list \<Rightarrow> 'b \<Rightarrow> nat list"

text \<open>
  What the model assumes of the spatial index where a claim needs it: a query with the
  bounding box of \<open>g\<close> returns positions of the indexed series, each once, and misses no
  geometry that intersects \<open>g\<close>.
\<close>

definition sindex_sound :: "('g, 'b) geos \<Rightarrow> bool" where
  "sindex_sound lib \<longleftrightarrow>
     (\<forall>ps g. distinct (sindex_intersection lib ps (bounds lib g)) \<and>
             (\<forall>i \<in> set (sindex_intersection lib ps (bounds lib g)). i < length ps) \<and>
             (\<forall>i < length ps. intersects lib (ps ! i) g \<longrightarrow>
                  i \<in> set (sindex_intersection lib ps (bounds lib g))))"

definition area_nonneg :: "('g, 'b) geos \<Rightarrow> bool" where
  "area_nonneg lib \<longleftrightarrow> (\<forall>g. 0 \<le> area lib g)"

subsection \<open>meff\<close>

text \<open>Lines 45 to 52: the patches that the lines are polygonized into.\<close>

definition patches_of :: "('g, 'b) geos \<Rightarrow> 'g gdf \<Rightarrow> 'g gdf \<Rightarrow> 'g list" where
  "patches_of lib lines bnd =
     (let discarded = append_series (geometry lines) (map (boundary lib) (geometry bnd));
          lines1 = [unary_union lib (geometry lines)];
          (result, dangles, cuts, invalids) = polygonize_full lib lines1;
          lines_polygonized = [result];
          patches = explode lib lines_polygonized
      in patches)"

text \<open>Lines 58 to 60: the fragments of one cell.\<close>

definition fragments_of :: "('g, 'b) geos \<Rightarrow> 'g list \<Rightarrow> 'g \<Rightarrow> error + 'g list" where
  "fragments_of lib patches g =
     (let fragment_candidates_idx = sindex_intersection lib patches (bounds lib g)
      in case iloc patches fragment_candidates_idx of
           Inl e \<Rightarrow> Inl e
         | Inr fragment_candidates \<Rightarrow> Inr (filter (\<lambda>f. intersects lib f g) fragment_candidates))"

text \<open>Lines 63 to 67: the inner loop.\<close>

fun fragments_loop :: "('g, 'b) geos \<Rightarrow> 'g \<Rightarrow> 'g list \<Rightarrow> real \<Rightarrow> real" where
  "fragments_loop lib g [] fragments_sum = fragments_sum"
| "fragments_loop lib g (fragment # rest) fragments_sum =
     (let inter = intersection lib fragment g;
          ai = area lib inter;
          acmpl = area lib fragment
      in fragments_loop lib g rest (fragments_sum + ai * acmpl))"

text \<open>
  Lines 56 to 71: the value of one cell. Dividing by a Python float that is zero raises
  ZeroDivisionError.
\<close>

definition cell_meff :: "('g, 'b) geos \<Rightarrow> 'g list \<Rightarrow> 'g \<Rightarrow> error + real" where
  "cell_meff lib patches g =
     (case fragments_of lib patches g of
        Inl e \<Rightarrow> Inl e
      | Inr fragments \<Rightarrow>
          (let fragments_sum = fragments_loop lib g fragments 0
           in if area lib g = 0 then Inl ZeroDivisionError
              else (let meff1 = fragments_sum / area lib g;
                        meff2 = meff1 / 1000 ^ 2
                    in Inr meff2)))"

text \<open>Lines 55 to 72: the loop over the cells of the mask; an exception ends it.\<close>

fun cells_loop :: "('g, 'b) geos \<Rightarrow> 'g list \<Rightarrow> (int \<times> 'g) list \<Rightarrow> 'g gdf \<Rightarrow> error + 'g gdf" where
  "cells_loop lib patches [] mask_df = Inr mask_df"
| "cells_loop lib patches (cell # cells) mask_df =
     (case cell_meff lib patches (snd cell) of
        Inl e \<Rightarrow> Inl e
      | Inr v \<Rightarrow> cells_loop lib patches cells (at_set mask_df (fst cell) ''meff'' (Float v)))"

text \<open>
  The function. \<open>mask.crs.to_epsg()\<close> raises AttributeError when the mask has no crs. The
  crs code is only attached to intermediate frames and has no effect on the result. The
  progress bar is not modelled.
\<close>

definition meff :: "('g, 'b) geos \<Rightarrow> 'g heap \<Rightarrow> nat \<Rightarrow> nat \<Rightarrow> nat \<Rightarrow> error + 'g heap \<times> nat" where
  "meff lib h lines_ref boundary_ref mask_ref =
     (case crs (objs h mask_ref) of
        None \<Rightarrow> Inl AttributeError
      | Some c \<Rightarrow>
          (let epsg = to_epsg c;
               (h1, mask1) = copy h mask_ref;
               h2 = h1\<lparr>objs := (objs h1)(mask1 := setitem (objs h1 mask1) ''meff'' NaN)\<rparr>;
               patches = patches_of lib (objs h2 lines_ref) (objs h2 boundary_ref)
           in case cells_loop lib patches (itertuples (objs h2 mask1)) (objs h2 mask1) of
                Inl e \<Rightarrow> Inl e
              | Inr m \<Rightarrow> Inr (h2\<lparr>objs := (objs h2)(mask1 := m)\<rparr>, mask1)))"


subsection \<open>Reading the result of meff\<close>

text \<open>The weight of one fragment in the sum of a cell: lines 64 to 67.\<close>

definition weight :: "('g, 'b) geos \<Rightarrow> 'g \<Rightarrow> 'g \<Rightarrow> real" where
  "weight lib g f = area lib (intersection lib f g) * area lib f"

text \<open>The value of a cell when \<open>cell_meff\<close> returns, and whether it returns.\<close>

definition cell_val :: "('g, 'b) geos \<Rightarrow> 'g list \<Rightarrow> 'g \<Rightarrow> real" where
  "cell_val lib ps g = (case cell_meff lib ps g of Inl e \<Rightarrow> 0 | Inr v \<Rightarrow> v)"

definition cell_ok :: "('g, 'b) geos \<Rightarrow> 'g list \<Rightarrow> 'g \<Rightarrow> bool" where
  "cell_ok lib ps g = (case cell_meff lib ps g of Inl e \<Rightarrow> False | Inr v \<Rightarrow> True)"

text \<open>One pass of the loop body that does not raise, and what it does to one column.\<close>

definition write_cell :: "('g, 'b) geos \<Rightarrow> 'g list \<Rightarrow> int \<times> 'g \<Rightarrow> 'g gdf \<Rightarrow> 'g gdf" where
  "write_cell lib ps cell df = at_set df (fst cell) ''meff'' (Float (cell_val lib ps (snd cell)))"

fun write_col :: "('g, 'b) geos \<Rightarrow> 'g list \<Rightarrow> int list \<Rightarrow> (int \<times> 'g) list \<Rightarrow> pyval list \<Rightarrow> pyval list" where
  "write_col lib ps idx [] c = c"
| "write_col lib ps idx (cell # cells) c =
     write_col lib ps idx cells
       (map (\<lambda>(i, x). if i = fst cell then Float (cell_val lib ps (snd cell)) else x) (zip idx c))"

text \<open>The frame that \<open>meff\<close> returns for the mask \<open>df\<close> when no cell raises.\<close>

definition meff_frame :: "('g, 'b) geos \<Rightarrow> 'g list \<Rightarrow> 'g gdf \<Rightarrow> 'g gdf" where
  "meff_frame lib ps df =
     fold (write_cell lib ps) (itertuples (setitem df ''meff'' NaN)) (setitem df ''meff'' NaN)"

text \<open>The cell of column \<open>col\<close> in the row at position \<open>i\<close>.\<close>

definition cell_at :: "'g gdf \<Rightarrow> string \<Rightarrow> nat \<Rightarrow> pyval option" where
  "cell_at df col i =
     (case map_of (columns df) col of
        None \<Rightarrow> None
      | Some c \<Rightarrow> if i < length c then Some (c ! i) else None)"

text \<open>The reference that a call returned, and the object at a reference after the call.\<close>

definition result_ref :: "error + 'g heap \<times> nat \<Rightarrow> nat option" where
  "result_ref res = (case res of Inl e \<Rightarrow> None | Inr (h, r) \<Rightarrow> Some r)"

definition result_obj :: "error + 'g heap \<times> nat \<Rightarrow> nat \<Rightarrow> 'g gdf option" where
  "result_obj res x = (case res of Inl e \<Rightarrow> None | Inr (h, r) \<Rightarrow> Some (objs h x))"

text \<open>The rows of a frame in another order: row \<open>k\<close> of the result is row \<open>p ! k\<close> of \<open>df\<close>.\<close>

definition permute_rows :: "nat list \<Rightarrow> 'g gdf \<Rightarrow> 'g gdf" where
  "permute_rows p df =
     df\<lparr>index := map (\<lambda>k. index df ! k) p,
        geometry := map (\<lambda>k. geometry df ! k) p,
        columns := map (\<lambda>(n, c). (n, map (\<lambda>k. c ! k) p)) (columns df)\<rparr>"

text \<open>
  The patches as the docstring of \<open>meff\<close> and the comment above line 45 describe them: the
  ring of the boundary is merged with the lines before the union.
\<close>

definition patches_with_ring :: "('g, 'b) geos \<Rightarrow> 'g gdf \<Rightarrow> 'g gdf \<Rightarrow> 'g list" where
  "patches_with_ring lib lines bnd =
     (let merged = append_series (geometry lines) (map (boundary lib) (geometry bnd));
          lines1 = [unary_union lib merged];
          (result, dangles, cuts, invalids) = polygonize_full lib lines1
      in explode lib [result])"

subsection \<open>A geometry library on the line\<close>

text \<open>
  An instance of the library parameters, to run \<open>meff\<close> on concrete inputs: geometry in one
  dimension. A line of the network is a set of cut points, a polygon is a segment, the
  ring of a segment is its two end points, and polygonizing a set of cut points gives the
  segments between neighbouring points. The bounding box of a segment is the segment.
\<close>

datatype g1 = Pts "int list" | Seg int int | Coll "g1 list"

fun area1 :: "g1 \<Rightarrow> real" where
  "area1 (Seg a b) = real_of_int (max 0 (b - a))"
| "area1 (Pts ps) = 0"
| "area1 (Coll gs) = sum_list (map area1 gs)"

fun intersection1 :: "g1 \<Rightarrow> g1 \<Rightarrow> g1" where
  "intersection1 (Seg a b) (Seg c d) = (if max a c \<le> min b d then Seg (max a c) (min b d) else Coll [])"
| "intersection1 g g' = Coll []"

fun intersects1 :: "g1 \<Rightarrow> g1 \<Rightarrow> bool" where
  "intersects1 (Seg a b) (Seg c d) = (max a c \<le> min b d)"
| "intersects1 g g' = False"

fun bounds1 :: "g1 \<Rightarrow> int \<times> int" where
  "bounds1 (Seg a b) = (a, b)"
| "bounds1 (Pts []) = (0, -1)"
| "bounds1 (Pts (p # ps)) = (fold min ps p, fold max ps p)"
| "bounds1 (Coll gs) = (0, -1)"

fun boundary1 :: "g1 \<Rightarrow> g1" where
  "boundary1 (Seg a b) = Pts [a, b]"
| "boundary1 g = Pts []"

fun points1 :: "g1 \<Rightarrow> int list" where
  "points1 (Pts ps) = ps"
| "points1 (Seg a b) = [a, b]"
| "points1 (Coll gs) = concat (map points1 gs)"

fun segments1 :: "int list \<Rightarrow> g1 list" where
  "segments1 (x # y # r) = Seg x y # segments1 (y # r)"
| "segments1 r = []"

fun parts1 :: "g1 \<Rightarrow> g1 list" where
  "parts1 (Coll gs) = gs"
| "parts1 g = [g]"

definition sindex1 :: "g1 list \<Rightarrow> int \<times> int \<Rightarrow> nat list" where
  "sindex1 ps q =
     filter (\<lambda>i. max (fst (bounds1 (ps ! i))) (fst q) \<le> min (snd (bounds1 (ps ! i))) (snd q))
       [0..<length ps]"

definition lib1 :: "(g1, int \<times> int) geos" where
  "lib1 = \<lparr>area = area1, intersection = intersection1, intersects = intersects1,
           bounds = bounds1, boundary = boundary1,
           unary_union = (\<lambda>gs. Pts (sort (remdups (concat (map points1 gs))))),
           polygonize_full = (\<lambda>gs. (Coll (segments1 (sort (remdups (concat (map points1 gs))))),
                                     Coll [], Coll [], Coll [])),
           explode = (\<lambda>gs. concat (map parts1 gs)),
           sindex_intersection = sindex1\<rparr>"

text \<open>Frames and a heap for the examples: the lines at 0, the boundary at 1, the mask at 2.\<close>

definition frame1 :: "g1 list \<Rightarrow> g1 gdf" where
  "frame1 gs = \<lparr>index = map int [0..<length gs], geometry = gs, columns = [],
               crs = Some (CRS (Some 3035))\<rparr>"

definition mask1 :: "g1 list \<Rightarrow> g1 gdf" where
  "mask1 gs = \<lparr>index = map int [0..<length gs], geometry = gs,
              columns = [(''name'', replicate (length gs) (Str ''cell''))],
              crs = Some (CRS (Some 3035))\<rparr>"

definition heap1 :: "g1 gdf \<Rightarrow> g1 gdf \<Rightarrow> g1 gdf \<Rightarrow> g1 heap" where
  "heap1 l b m =
     \<lparr>objs = (\<lambda>r. if r = 0 then l else if r = 1 then b else if r = 2 then m else frame1 []),
      fresh = 3\<rparr>"

section \<open>convert.py: raster to centroids\<close>

text \<open>
  The opened raster, as far as \<open>to_centroids\<close> reads it: the array \<open>src.read()\<close> with its
  shape (bands, rows, columns), the centre \<open>src.xy(r, c)\<close> of a pixel and \<open>src.crs\<close>.
  \<open>read src i r c\<close> is \<open>arr[i][r][c]\<close>. The claims are about rasters of unsigned integers
  (the docstring gives \<open>nodata\<close> the range 0 to 255): a pixel value is a word of
  \<open>LENGTH('a)\<close> bits, and numpy adds two of them modulo \<open>2 ^ LENGTH('a)\<close>.
\<close>

record ('a, 'p) dataset =
  read :: "nat \<Rightarrow> nat \<Rightarrow> nat \<Rightarrow> 'a"
  shape :: "nat \<times> nat \<times> nat"
  xy :: "nat \<Rightarrow> nat \<Rightarrow> 'p"
  src_crs :: "crs option"

text \<open>\<open>str(n)\<close> for the column names \<open>f'b{i+1}'\<close>.\<close>

fun str_nat :: "nat \<Rightarrow> string" where
  "str_nat n = (if n < 10 then [''0123456789'' ! n]
                else str_nat (n div 10) @ [''0123456789'' ! (n mod 10)])"

declare str_nat.simps [simp del]

text \<open>
  Line 41, \<open>mask = sum(arr) == nodata\<close>. The builtin \<open>sum\<close> adds the bands from the left,
  starting from 0, element by element in the type of the array; the comparison with the
  Python integer \<open>nodata\<close> compares values.
\<close>

definition band_sum :: "('a::len word, 'p) dataset \<Rightarrow> nat \<Rightarrow> nat \<Rightarrow> 'a word" where
  "band_sum src r c = foldl (+) 0 (map (\<lambda>i. read src i r c) [0..<fst (shape src)])"

definition nodata_mask :: "('a::len word, 'p) dataset \<Rightarrow> int \<Rightarrow> nat \<Rightarrow> nat \<Rightarrow> bool" where
  "nodata_mask src nodata r c \<longleftrightarrow> uint (band_sum src r c) = nodata"

text \<open>Lines 48 and 49: the pixels in the order of the two loops.\<close>

definition pixels :: "('a, 'p) dataset \<Rightarrow> (nat \<times> nat) list" where
  "pixels src =
     (let (bands, nrows, ncols) = shape src
      in concat (map (\<lambda>r. map (\<lambda>c. (r, c)) [0..<ncols]) [0..<nrows]))"

text \<open>Line 50: the pixels that pass \<open>if not mask[r, c]\<close>.\<close>

definition unmasked :: "('a::len word, 'p) dataset \<Rightarrow> int \<Rightarrow> (nat \<times> nat) list" where
  "unmasked src nodata = filter (\<lambda>(r, c). \<not> nodata_mask src nodata r c) (pixels src)"

text \<open>
  The function. \<open>warp e0 e\<close> is the reprojection of a point from EPSG code \<open>e0\<close> to \<open>e\<close>, done
  by geopandas. \<open>src.crs.to_epsg()\<close> raises AttributeError for a raster without crs, and
  \<open>gdf.to_crs\<close> raises ValueError for a frame without crs. For an array without bands
  \<open>sum(arr)\<close> is the integer 0, the mask is a single boolean, and \<open>mask[r, c]\<close> raises
  TypeError when the loop body runs. The two prints are not modelled.
\<close>

definition to_centroids ::
  "(int \<Rightarrow> int \<Rightarrow> 'p \<Rightarrow> 'p) \<Rightarrow> ('a::len word, 'p) dataset \<Rightarrow> int \<Rightarrow> int option \<Rightarrow> error + 'p gdf" where
  "to_centroids warp src nodata to_crs =
     (let (bands, nrows, ncols) = shape src
      in case src_crs src of
           None \<Rightarrow> Inl AttributeError
         | Some cs \<Rightarrow>
             if bands = 0 \<and> 0 < nrows \<and> 0 < ncols then Inl TypeError
             else
               (let crs0 = to_epsg cs;
                    kept = unmasked src nodata;
                    xys = map (\<lambda>(r, c). xy src r c) kept;
                    properties = map (\<lambda>i. map (\<lambda>(r, c). read src i r c) kept) [0..<bands];
                    gdf0 = \<lparr>index = map int [0..<length xys], geometry = xys, columns = [],
                            crs = map_option (\<lambda>e. CRS (Some e)) crs0\<rparr>;
                    cols = map (\<lambda>i. (''b'' @ str_nat (i + 1), map (\<lambda>v. Num (uint v)) (properties ! i)))
                               [0..<bands]
                in case to_crs of
                     None \<Rightarrow> Inr (gdf0\<lparr>columns := cols\<rparr>)
                   | Some e \<Rightarrow>
                       (case crs0 of
                          None \<Rightarrow> Inl ValueError
                        | Some e0 \<Rightarrow>
                            Inr (gdf0\<lparr>geometry := map (warp e0 e) xys, crs := Some (CRS (Some e)),
                                      columns := cols\<rparr>))))"

text \<open>A raster of 8-bit pixels with two bands and one pixel, for the example.\<close>

definition raster_overflow :: "(8 word, nat \<times> nat) dataset" where
  "raster_overflow = \<lparr>read = (\<lambda>i r c. 128), shape = (2, 1, 1), xy = (\<lambda>r c. (r, c)),
                      src_crs = Some (CRS (Some 3035))\<rparr>"

section \<open>process.py: merging feature tables\<close>

















section \<open>Properties of meff\<close>

subsection \<open>The loops\<close>

lemma fragments_loop_sum:
  "fragments_loop lib g fs acc = acc + sum_list (map (weight lib g) fs)"
  by (induction fs arbitrary: acc) (simp_all add: weight_def Let_def)

lemma cells_loop_ok:
  "list_all (\<lambda>c. cell_ok lib ps (snd c)) cells \<Longrightarrow>
   cells_loop lib ps cells df = Inr (fold (write_cell lib ps) cells df)"
  by (induction cells arbitrary: df)
     (auto simp: cell_ok_def cell_val_def write_cell_def split: sum.splits)

lemma cells_loop_Inr_ok:
  "cells_loop lib ps cells df = Inr df' \<Longrightarrow> list_all (\<lambda>c. cell_ok lib ps (snd c)) cells"
proof (induction cells arbitrary: df)
  case Nil
  show ?case by simp
next
  case (Cons cell cells)
  from Cons.prems obtain v where v: "cell_meff lib ps (snd cell) = Inr v"
    and rest: "cells_loop lib ps cells (at_set df (fst cell) ''meff'' (Float v)) = Inr df'"
    by (auto split: sum.splits)
  from v have "cell_ok lib ps (snd cell)" by (simp add: cell_ok_def)
  with Cons.IH[OF rest] show ?case by simp
qed

lemma at_set_frame [simp]:
  "index (at_set df l col v) = index df"
  "geometry (at_set df l col v) = geometry df"
  "crs (at_set df l col v) = crs df"
  by (simp_all add: at_set_def)

lemma fold_write_frame [simp]:
  "index (fold (write_cell lib ps) cells df) = index df"
  "geometry (fold (write_cell lib ps) cells df) = geometry df"
  "crs (fold (write_cell lib ps) cells df) = crs df"
  by (induction cells arbitrary: df) (simp_all add: write_cell_def)

lemma fold_write_columns:
  "columns (fold (write_cell lib ps) cells df) =
   map (\<lambda>(n, c). if n = ''meff'' then (n, write_col lib ps (index df) cells c) else (n, c)) (columns df)"
proof (induction cells arbitrary: df)
  case Nil
  have "(\<lambda>(n, c). if n = ''meff'' then (n, write_col lib ps (index df) [] c) else (n, c))
        = (\<lambda>x. x)"
    by (auto simp: fun_eq_iff)
  then show ?case by simp
next
  case (Cons cell cells)
  let ?df = "write_cell lib ps cell df"
  have "columns (fold (write_cell lib ps) (cell # cells) df) =
        map (\<lambda>(n, c). if n = ''meff'' then (n, write_col lib ps (index ?df) cells c) else (n, c))
            (columns ?df)"
    using Cons.IH[of ?df] by simp
  also have "\<dots> = map (\<lambda>(n, c). if n = ''meff''
                 then (n, write_col lib ps (index df) (cell # cells) c) else (n, c)) (columns df)"
    by (auto simp: write_cell_def at_set_def)
  finally show ?case .
qed

lemma length_write_col:
  "length c = length idx \<Longrightarrow> length (write_col lib ps idx cells c) = length idx"
  by (induction cells arbitrary: c) simp_all

lemma write_col_nth:
  assumes "length c = length idx" "j < length idx" "distinct (map fst cells)"
  shows "write_col lib ps idx cells c ! j =
         (case map_of cells (idx ! j) of None \<Rightarrow> c ! j | Some g \<Rightarrow> Float (cell_val lib ps g))"
  using assms
proof (induction cells arbitrary: c)
  case Nil
  then show ?case by simp
next
  case (Cons cell cells)
  obtain l g where cell: "cell = (l, g)" by (cases cell)
  let ?c' = "map (\<lambda>(i, x). if i = l then Float (cell_val lib ps g) else x) (zip idx c)"
  have len: "length ?c' = length idx" using Cons.prems by simp
  have ih: "write_col lib ps idx cells ?c' ! j =
      (case map_of cells (idx ! j) of None \<Rightarrow> ?c' ! j | Some g \<Rightarrow> Float (cell_val lib ps g))"
    using Cons.IH[OF len] Cons.prems by simp
  show ?case
  proof (cases "idx ! j = l")
    case True
    then have "map_of cells (idx ! j) = None"
      using Cons.prems(3) cell by (simp add: map_of_eq_None_iff)
    then show ?thesis using ih True cell Cons.prems by simp
  next
    case False
    have "?c' ! j = c ! j" using False Cons.prems by simp
    then show ?thesis using ih cell False by (simp split: option.splits)
  qed
qed

lemma write_col_itertuples:
  assumes "length c = length idx" "length gs = length idx" "distinct idx"
  shows "write_col lib ps idx (zip idx gs) c = map (\<lambda>g. Float (cell_val lib ps g)) gs"
proof (rule nth_equalityI)
  show "length (write_col lib ps idx (zip idx gs) c) = length (map (\<lambda>g. Float (cell_val lib ps g)) gs)"
    using assms by (simp add: length_write_col)
next
  fix j assume "j < length (write_col lib ps idx (zip idx gs) c)"
  then have j: "j < length idx" using assms by (simp add: length_write_col)
  have d: "distinct (map fst (zip idx gs))" using assms by simp
  have "map_of (zip idx gs) (idx ! j) = Some (gs ! j)"
    using assms j by (simp add: map_of_zip_nth)
  then show "write_col lib ps idx (zip idx gs) c ! j = map (\<lambda>g. Float (cell_val lib ps g)) gs ! j"
    using write_col_nth[OF assms(1) j d, of lib ps] j assms by simp
qed

lemma filter_by_positions:
  "filter P xs = map (\<lambda>i. xs ! i) (filter (\<lambda>i. P (xs ! i)) [0..<length xs])"
proof -
  have "filter P xs = filter P (map (\<lambda>i. xs ! i) [0..<length xs])"
    by (simp add: map_nth)
  also have "\<dots> = map (\<lambda>i. xs ! i) (filter (\<lambda>i. P (xs ! i)) [0..<length xs])"
    by (simp add: filter_map comp_def)
  finally show ?thesis .
qed

lemma fragments_of_sound:
  assumes "sindex_sound lib"
  shows "\<exists>fs. fragments_of lib ps g = Inr fs \<and>
              mset fs = mset (filter (\<lambda>f. intersects lib f g) ps)"
proof -
  let ?idx = "sindex_intersection lib ps (bounds lib g)"
  let ?P = "\<lambda>i. intersects lib (ps ! i) g"
  from assms have d: "distinct ?idx"
    and r: "\<forall>i \<in> set ?idx. i < length ps"
    and c: "\<forall>i < length ps. ?P i \<longrightarrow> i \<in> set ?idx"
    unfolding sindex_sound_def by blast+
  from r have il: "iloc ps ?idx = Inr (map (\<lambda>i. ps ! i) ?idx)"
    by (simp add: iloc_def list_all_iff)
  have fr: "fragments_of lib ps g = Inr (map (\<lambda>i. ps ! i) (filter ?P ?idx))"
    by (simp add: fragments_of_def il filter_map comp_def)
  have s: "set (filter ?P ?idx) = set (filter ?P [0..<length ps])"
    using r c by auto
  have dA: "distinct (filter ?P ?idx)" and dB: "distinct (filter ?P [0..<length ps])"
    using d by simp_all
  have "mset (filter ?P ?idx) = mset (filter ?P [0..<length ps])"
    using set_eq_iff_mset_eq_distinct[OF dA dB] s by blast
  then have "mset (map (\<lambda>i. ps ! i) (filter ?P ?idx)) =
             mset (map (\<lambda>i. ps ! i) (filter ?P [0..<length ps]))"
    by (metis mset_map)
  also have "\<dots> = mset (filter (\<lambda>f. intersects lib f g) ps)"
    using filter_by_positions[of "\<lambda>f. intersects lib f g" ps] by simp
  finally show ?thesis using fr by blast
qed

lemma sum_list_mset_cong:
  fixes w :: "'a \<Rightarrow> real"
  assumes "mset xs = mset ys"
  shows "sum_list (map w xs) = sum_list (map w ys)"
proof -
  have "sum_list (map w xs) = sum_mset (image_mset w (mset xs))"
    by (metis mset_map sum_mset_sum_list)
  also have "\<dots> = sum_mset (image_mset w (mset ys))"
    using assms by simp
  also have "\<dots> = sum_list (map w ys)"
    by (metis mset_map sum_mset_sum_list)
  finally show ?thesis .
qed

lemma cell_meff_sound:
  assumes "sindex_sound lib" "area lib g \<noteq> 0"
  shows "cell_meff lib ps g =
         Inr (sum_list (map (weight lib g) (filter (\<lambda>f. intersects lib f g) ps))
              / area lib g / 1000000)"
proof -
  from fragments_of_sound[OF assms(1), of ps g] obtain fs
    where fs: "fragments_of lib ps g = Inr fs"
      and m: "mset fs = mset (filter (\<lambda>f. intersects lib f g) ps)"
    by blast
  have "sum_list (map (weight lib g) fs) =
        sum_list (map (weight lib g) (filter (\<lambda>f. intersects lib f g) ps))"
    by (rule sum_list_mset_cong[OF m])
  then show ?thesis
    using assms(2) by (simp add: cell_meff_def fs fragments_loop_sum Let_def)
qed

lemma cell_meff_zero_area:
  assumes "sindex_sound lib" "area lib g = 0"
  shows "cell_meff lib ps g = Inl ZeroDivisionError"
proof -
  from fragments_of_sound[OF assms(1), of ps g] obtain fs
    where fs: "fragments_of lib ps g = Inr fs" by blast
  then show ?thesis using assms(2) by (simp add: cell_meff_def Let_def)
qed

lemma setitem_frame [simp]:
  "index (setitem df col v) = index df"
  "geometry (setitem df col v) = geometry df"
  "crs (setitem df col v) = crs df"
  by (simp_all add: setitem_def Let_def)

lemma setitem_other_columns:
  "filter (\<lambda>(n, c). n \<noteq> col) (columns (setitem df col v)) = filter (\<lambda>(n, c). n \<noteq> col) (columns df)"
proof -
  have "filter (\<lambda>(n, c). n \<noteq> col) (map (\<lambda>(n, c). if n = col then (n, w) else (n, c)) cs)
        = filter (\<lambda>(n, c). n \<noteq> col) cs" for w :: "pyval list" and cs
    by (induction cs) auto
  then show ?thesis by (simp add: setitem_def Let_def)
qed

lemma setitem_col_values:
  "(col, c) \<in> set (columns (setitem df col v)) \<Longrightarrow> c = replicate (length (index df)) v"
  by (auto simp: setitem_def Let_def image_iff split: if_splits)

lemma setitem_has_col: "col \<in> fst ` set (columns (setitem df col v))"
  by (force simp: setitem_def Let_def image_iff)

lemma meff_unfold:
  assumes "l < fresh h" "b < fresh h"
  shows "meff lib h l b m =
     (case crs (objs h m) of
        None \<Rightarrow> Inl AttributeError
      | Some c \<Rightarrow>
         (case cells_loop lib (patches_of lib (objs h l) (objs h b))
                 (itertuples (setitem (objs h m) ''meff'' NaN)) (setitem (objs h m) ''meff'' NaN) of
            Inl e \<Rightarrow> Inl e
          | Inr r \<Rightarrow> Inr (h\<lparr>objs := (objs h)(fresh h := r), fresh := Suc (fresh h)\<rparr>, fresh h)))"
  using assms by (simp add: meff_def copy_def Let_def split: option.splits sum.splits)

lemma meff_InrD:
  assumes "meff lib h l b m = Inr (h', r)" "l < fresh h" "b < fresh h"
  shows "r = fresh h"
    and "h' = h\<lparr>objs := (objs h)(fresh h := meff_frame lib (patches_of lib (objs h l) (objs h b)) (objs h m)),
                fresh := Suc (fresh h)\<rparr>"
    and "crs (objs h m) \<noteq> None"
    and "list_all (\<lambda>c. cell_ok lib (patches_of lib (objs h l) (objs h b)) (snd c)) (itertuples (objs h m))"
proof -
  let ?ps = "patches_of lib (objs h l) (objs h b)"
  let ?df = "setitem (objs h m) ''meff'' NaN"
  note u = meff_unfold[OF assms(2,3), of lib m]
  obtain c where c: "crs (objs h m) = Some c"
  proof (cases "crs (objs h m)")
    case None
    with u assms(1) show ?thesis by simp
  next
    case (Some c)
    with that show ?thesis by blast
  qed
  obtain fr where fr: "cells_loop lib ?ps (itertuples ?df) ?df = Inr fr"
  proof (cases "cells_loop lib ?ps (itertuples ?df) ?df")
    case (Inl e)
    with u c assms(1) show ?thesis by simp
  next
    case (Inr fr)
    with that show ?thesis by blast
  qed
  have "Inr (h', r) = Inr (h\<lparr>objs := (objs h)(fresh h := fr), fresh := Suc (fresh h)\<rparr>, fresh h)"
    using u c fr assms(1) by simp
  then have res: "h' = h\<lparr>objs := (objs h)(fresh h := fr), fresh := Suc (fresh h)\<rparr>" "r = fresh h"
    by simp_all
  have ok: "list_all (\<lambda>c. cell_ok lib ?ps (snd c)) (itertuples ?df)"
    by (rule cells_loop_Inr_ok[OF fr])
  have "fr = meff_frame lib ?ps (objs h m)"
    using cells_loop_ok[OF ok, of ?df] fr by (simp add: meff_frame_def)
  with res c ok show "r = fresh h"
    and "h' = h\<lparr>objs := (objs h)(fresh h := meff_frame lib ?ps (objs h m)), fresh := Suc (fresh h)\<rparr>"
    and "crs (objs h m) \<noteq> None"
    and "list_all (\<lambda>c. cell_ok lib ?ps (snd c)) (itertuples (objs h m))"
    by (simp_all add: itertuples_def)
qed

lemma meff_returns:
  assumes "l < fresh h" "b < fresh h" "crs (objs h m) \<noteq> None"
    and "list_all (\<lambda>c. cell_ok lib (patches_of lib (objs h l) (objs h b)) (snd c)) (itertuples (objs h m))"
  shows "meff lib h l b m =
         Inr (h\<lparr>objs := (objs h)(fresh h := meff_frame lib (patches_of lib (objs h l) (objs h b)) (objs h m)),
                fresh := Suc (fresh h)\<rparr>, fresh h)"
proof -
  let ?ps = "patches_of lib (objs h l) (objs h b)"
  let ?df = "setitem (objs h m) ''meff'' NaN"
  have "list_all (\<lambda>c. cell_ok lib ?ps (snd c)) (itertuples ?df)"
    using assms(4) by (simp add: itertuples_def)
  from cells_loop_ok[OF this, of ?df] assms(3) show ?thesis
    unfolding meff_unfold[OF assms(1,2), of lib m] by (auto simp: meff_frame_def)
qed

lemma meff_frame_frame [simp]:
  "index (meff_frame lib ps df) = index df"
  "geometry (meff_frame lib ps df) = geometry df"
  "crs (meff_frame lib ps df) = crs df"
  by (simp_all add: meff_frame_def)

lemma meff_frame_other_columns:
  "filter (\<lambda>(n, c). n \<noteq> ''meff'') (columns (meff_frame lib ps df)) =
   filter (\<lambda>(n, c). n \<noteq> ''meff'') (columns df)"
proof -
  have "filter (\<lambda>(n, c). n \<noteq> ''meff'') (map (\<lambda>(n, c). if n = ''meff'' then (n, F c) else (n, c)) cs)
        = filter (\<lambda>(n, c). n \<noteq> ''meff'') cs" for F :: "pyval list \<Rightarrow> pyval list" and cs
    by (induction cs) auto
  then show ?thesis
    by (simp add: meff_frame_def fold_write_columns setitem_other_columns)
qed

lemma meff_frame_columns:
  assumes "length (geometry df) = length (index df)" "distinct (index df)"
  shows "columns (meff_frame lib ps df) =
         map (\<lambda>(n, c). if n = ''meff'' then (n, map (\<lambda>g. Float (cell_val lib ps g)) (geometry df)) else (n, c))
             (columns (setitem df ''meff'' NaN))"
proof -
  have "write_col lib ps (index df) (zip (index df) (geometry df)) c =
        map (\<lambda>g. Float (cell_val lib ps g)) (geometry df)"
    if "(''meff'', c) \<in> set (columns (setitem df ''meff'' NaN))" for c
    using setitem_col_values[OF that] assms by (simp add: write_col_itertuples)
  then show ?thesis
    by (auto simp: meff_frame_def fold_write_columns itertuples_def)
qed

lemma map_of_map_col:
  "map_of (map (\<lambda>(n, c). if n = col then (n, w) else (n, c)) cs) col =
   (if col \<in> fst ` set cs then Some w else None)"
  by (induction cs) (auto simp: image_iff)

lemma cell_at_meff_frame:
  assumes "length (geometry df) = length (index df)" "distinct (index df)" "i < length (index df)"
  shows "cell_at (meff_frame lib ps df) ''meff'' i = Some (Float (cell_val lib ps (geometry df ! i)))"
  using assms setitem_has_col[of "''meff''" df NaN]
  by (simp add: cell_at_def meff_frame_columns map_of_map_col)

subsection \<open>The library on the line meets the assumptions\<close>

lemma sindex_sound_lib1: "sindex_sound lib1"
proof -
  have "i \<in> set (sindex1 ps (bounds1 g))" if "i < length ps" "intersects1 (ps ! i) g" for ps g i
  proof -
    from that(2) obtain a b c d where "ps ! i = Seg a b" "g = Seg c d" "max a c \<le> min b d"
      by (cases "ps ! i"; cases g) auto
    with that(1) show ?thesis by (simp add: sindex1_def)
  qed
  then show ?thesis
    by (auto simp: sindex_sound_def lib1_def sindex1_def)
qed

lemma area_nonneg_lib1: "area_nonneg lib1"
proof -
  have "0 \<le> area1 g" for g
    by (induction g) (auto intro!: sum_list_nonneg)
  then show ?thesis by (simp add: area_nonneg_def lib1_def)
qed

lemma patches_lib1:
  "patches_of lib1 (frame1 [Pts [0], Pts [5], Pts [10]]) bnd = [Seg 0 5, Seg 5 10]"
  by (simp add: patches_of_def lib1_def frame1_def)

lemma cell_meff_lib1:
  "cell_meff lib1 [Seg 0 5, Seg 5 10] (Seg 0 4) = Inr (5 / 1000000)"
  "cell_meff lib1 [Seg 0 5, Seg 5 10] (Seg 2 7) = Inr (5 / 1000000)"
  "cell_meff lib1 [Seg 0 5, Seg 5 10] (Seg 20 30) = Inr 0"
  "cell_meff lib1 [Seg 0 5, Seg 5 10] (Seg 3 3) = Inl ZeroDivisionError"
  by (simp_all add: cell_meff_def fragments_of_def iloc_def lib1_def sindex1_def upt_rec)

lemma meff_lib1_returns:
  assumes "list_all (\<lambda>g. cell_ok lib1 [Seg 0 5, Seg 5 10] g) gs"
  shows "\<exists>h'. meff lib1 (heap1 (frame1 [Pts [0], Pts [5], Pts [10]]) bnd (mask1 gs)) 0 1 2 = Inr (h', 3)"
proof -
  let ?h = "heap1 (frame1 [Pts [0], Pts [5], Pts [10]]) bnd (mask1 gs)"
  have "list_all (\<lambda>c. cell_ok lib1 (patches_of lib1 (objs ?h 0) (objs ?h 1)) (snd c))
          (itertuples (objs ?h 2))"
    using assms by (auto simp: heap1_def patches_lib1 itertuples_def mask1_def list_all_iff dest: set_zip_rightD)
  from meff_returns[OF _ _ _ this] show ?thesis
    by (simp add: heap1_def mask1_def)
qed

subsection \<open>Claims about meff\<close>

text \<open>
  Claim C2. The line set that is unioned and polygonized should hold the lines of the
  network and the ring of the boundary. In the code the series returned by
  \<open>lines.geometry.append(boundary.boundary)\<close> is dropped, so the patches do not depend on
  the boundary at all. On the line: one cut point at 5 inside the boundary segment from 0
  to 10 gives no patch, where the ring would close the two patches from 0 to 5 and from 5
  to 10.
\<close>

theorem meff_ignores_boundary_ring:
  "patches_of lib lines bnd = explode lib [fst (polygonize_full lib [unary_union lib (geometry lines)])]
   \<and> meff lib h l b m = meff lib h l b' m
   \<and> patches_of lib1 (frame1 [Pts [5]]) (frame1 [Seg 0 10]) = []
   \<and> patches_with_ring lib1 (frame1 [Pts [5]]) (frame1 [Seg 0 10]) = [Seg 0 5, Seg 5 10]"
proof -
  have p: "patches_of lib x y = explode lib [fst (polygonize_full lib [unary_union lib (geometry x)])]"
    for x y
    by (simp add: patches_of_def Let_def split_def)
  have "meff lib h l b m = meff lib h l b' m"
    by (simp add: meff_def copy_def Let_def p split: option.splits)
  moreover have "patches_of lib1 (frame1 [Pts [5]]) (frame1 [Seg 0 10]) = []"
    by (simp add: patches_of_def lib1_def frame1_def)
  moreover have "patches_with_ring lib1 (frame1 [Pts [5]]) (frame1 [Seg 0 10]) = [Seg 0 5, Seg 5 10]"
    by (simp add: patches_with_ring_def append_series_def lib1_def frame1_def)
  ultimately show ?thesis using p by blast
qed

text \<open>
  Claim C7. In the table that \<open>meff\<close> returns, the index labels, the geometries, their
  order, the crs and every column other than \<open>meff\<close> are those of the input mask.
\<close>

theorem meff_preserves_other_attributes:
  assumes "meff lib h l b m = Inr (h', r)" "l < fresh h" "b < fresh h"
  shows "index (objs h' r) = index (objs h m)
       \<and> geometry (objs h' r) = geometry (objs h m)
       \<and> crs (objs h' r) = crs (objs h m)
       \<and> filter (\<lambda>(n, c). n \<noteq> ''meff'') (columns (objs h' r)) =
         filter (\<lambda>(n, c). n \<noteq> ''meff'') (columns (objs h m))"
  using meff_InrD(1,2)[OF assms]
  by (simp add: meff_frame_other_columns)

theorem meff_preserves_other_attributes_witness:
  "\<exists>h' r. meff lib1 (heap1 (frame1 [Pts [0], Pts [5], Pts [10]]) (frame1 [Seg 0 10])
                        (mask1 [Seg 0 4, Seg 2 7])) 0 1 2 = Inr (h', r)
         \<and> index (objs h' r) = [0, 1]
         \<and> geometry (objs h' r) = [Seg 0 4, Seg 2 7]
         \<and> crs (objs h' r) = Some (CRS (Some 3035))
         \<and> filter (\<lambda>(n, c). n \<noteq> ''meff'') (columns (objs h' r)) = [(''name'', [Str ''cell'', Str ''cell''])]"
proof -
  let ?h = "heap1 (frame1 [Pts [0], Pts [5], Pts [10]]) (frame1 [Seg 0 10]) (mask1 [Seg 0 4, Seg 2 7])"
  have ok: "list_all (\<lambda>g. cell_ok lib1 [Seg 0 5, Seg 5 10] g) [Seg 0 4, Seg 2 7]"
    by (simp add: cell_ok_def cell_meff_lib1)
  obtain h' r where res: "meff lib1 ?h 0 1 2 = Inr (h', r)"
    using meff_lib1_returns[OF ok, of "frame1 [Seg 0 10]"] by blast
  have l: "0 < fresh ?h" and b: "1 < fresh ?h"
    by (simp_all add: heap1_def)
  from meff_preserves_other_attributes[OF res l b] res show ?thesis
    by (simp add: heap1_def mask1_def upt_rec)
qed

lemma lib1_fields:
  "area lib1 = area1" "intersection lib1 = intersection1" "intersects lib1 = intersects1"
  "bounds lib1 = bounds1" "boundary lib1 = boundary1" "sindex_intersection lib1 = sindex1"
  by (simp_all add: lib1_def)

lemma cells_loop_zero_division:
  assumes "sindex_sound lib" "\<exists>c \<in> set cells. area lib (snd c) = 0"
  shows "cells_loop lib ps cells df = Inl ZeroDivisionError"
  using assms(2)
proof (induction cells arbitrary: df)
  case Nil
  then show ?case by simp
next
  case (Cons cell cells)
  show ?case
  proof (cases "area lib (snd cell) = 0")
    case True
    then show ?thesis
      using cell_meff_zero_area[OF assms(1), of "snd cell" ps] by simp
  next
    case False
    then have "\<exists>c \<in> set cells. area lib (snd c) = 0" using Cons.prems by auto
    from Cons.IH[OF this] cell_meff_sound[OF assms(1) False, of ps] show ?thesis by simp
  qed
qed

lemma fragments_of_subset:
  "fragments_of lib ps g = Inr fs \<Longrightarrow> set fs \<subseteq> {f \<in> set ps. intersects lib f g}"
  by (auto simp: fragments_of_def iloc_def Let_def list_all_iff split: if_splits)

lemma cell_val_no_fragment:
  assumes "cell_ok lib ps g" "\<forall>f \<in> set ps. \<not> intersects lib f g"
  shows "cell_val lib ps g = 0"
proof -
  from assms(1) obtain fs where fs: "fragments_of lib ps g = Inr fs"
    by (auto simp: cell_ok_def cell_meff_def split: sum.splits)
  from fragments_of_subset[OF fs] assms(2) have "set fs \<subseteq> {}" by blast
  then have "fs = []" by simp
  with fs show ?thesis
    by (simp add: cell_val_def cell_meff_def Let_def)
qed

lemma cell_val_nonneg:
  assumes "area_nonneg lib"
  shows "0 \<le> cell_val lib ps g"
proof -
  have a: "0 \<le> area lib x" for x using assms by (simp add: area_nonneg_def)
  have "0 \<le> sum_list (map (weight lib g) fs)" for fs
    by (rule sum_list_nonneg) (auto simp: weight_def a)
  then show ?thesis
    by (auto simp: cell_val_def cell_meff_def fragments_loop_sum Let_def a split: sum.splits)
qed

lemma cell_val_sound:
  assumes "sindex_sound lib" "area lib g \<noteq> 0"
  shows "cell_val lib ps g =
         (\<Sum>f\<leftarrow>filter (\<lambda>f. intersects lib f g) ps. area lib (intersection lib f g) * area lib f)
           / area lib g / 1000000"
  using cell_meff_sound[OF assms, of ps] by (simp add: cell_val_def weight_def[abs_def])

lemma meff_cell_at:
  assumes "meff lib h l b m = Inr (h', r)" "l < fresh h" "b < fresh h"
    and "wf_gdf (objs h m)" "distinct (index (objs h m))" "i < length (index (objs h m))"
  shows "cell_at (objs h' r) ''meff'' i =
         Some (Float (cell_val lib (patches_of lib (objs h l) (objs h b)) (geometry (objs h m) ! i)))"
    and "cell_ok lib (patches_of lib (objs h l) (objs h b)) (geometry (objs h m) ! i)"
proof -
  let ?ps = "patches_of lib (objs h l) (objs h b)"
  from assms(4) have len: "length (geometry (objs h m)) = length (index (objs h m))"
    by (simp add: wf_gdf_def)
  from meff_InrD(1,2)[OF assms(1-3)] cell_at_meff_frame[OF len assms(5,6), of lib ?ps]
  show "cell_at (objs h' r) ''meff'' i = Some (Float (cell_val lib ?ps (geometry (objs h m) ! i)))"
    by simp
  have "(index (objs h m) ! i, geometry (objs h m) ! i) \<in> set (itertuples (objs h m))"
    using len assms(6) by (auto simp: itertuples_def set_zip)
  with meff_InrD(4)[OF assms(1-3)]
  show "cell_ok lib ?ps (geometry (objs h m) ! i)"
    by (auto simp: list_all_iff)
qed

text \<open>
  The call returns a table whenever the mask has a crs and no region has area zero, for a
  spatial index that returns positions of the indexed series.
\<close>

lemma meff_returns_sound:
  assumes "sindex_sound lib" "l < fresh h" "b < fresh h" "crs (objs h m) \<noteq> None"
    and "\<forall>g \<in> set (geometry (objs h m)). area lib g \<noteq> 0"
  shows "\<exists>h'. meff lib h l b m = Inr (h', fresh h)"
proof -
  have "list_all (\<lambda>c. cell_ok lib (patches_of lib (objs h l) (objs h b)) (snd c))
          (itertuples (objs h m))"
    using assms(5) cell_meff_sound[OF assms(1)]
    by (auto simp: list_all_iff itertuples_def cell_ok_def dest!: set_zip_rightD)
  from meff_returns[OF assms(2-4) this] show ?thesis by blast
qed

text \<open>
  Claim C1. For a region of positive area, the value in its \<open>meff\<close> slot is the sum, over
  the patches that intersect the region, of the area of the intersection times the area
  of the patch, divided by the area of the region and by 1000000. The region is the row
  at position \<open>i\<close>; its index label is kept. The patches are those of the code, and the
  spatial index is assumed to miss no intersecting patch.
\<close>

theorem meff_value_formula:
  assumes "meff lib h l b m = Inr (h', r)" "l < fresh h" "b < fresh h"
    and "wf_gdf (objs h m)" "distinct (index (objs h m))" "i < length (index (objs h m))"
    and "sindex_sound lib" "0 < area lib (geometry (objs h m) ! i)"
  shows "index (objs h' r) ! i = index (objs h m) ! i \<and>
         cell_at (objs h' r) ''meff'' i =
         Some (Float ((\<Sum>f\<leftarrow>filter (\<lambda>f. intersects lib f (geometry (objs h m) ! i))
                                   (patches_of lib (objs h l) (objs h b)).
                         area lib (intersection lib f (geometry (objs h m) ! i)) * area lib f)
                      / area lib (geometry (objs h m) ! i) / 1000000))"
proof -
  have "area lib (geometry (objs h m) ! i) \<noteq> 0" using assms(8) by simp
  from cell_val_sound[OF assms(7) this] meff_cell_at(1)[OF assms(1-6)] meff_InrD(1,2)[OF assms(1-3)]
  show ?thesis by simp
qed

theorem meff_value_formula_witness:
  "\<exists>h' r. meff lib1 (heap1 (frame1 [Pts [0], Pts [5], Pts [10]]) (frame1 [Seg 0 10])
                        (mask1 [Seg 0 4, Seg 2 7])) 0 1 2 = Inr (h', r)
         \<and> index (objs h' r) ! 1 = 1
         \<and> cell_at (objs h' r) ''meff'' 1 = Some (Float ((3 * 5 + 2 * 5) / 5 / 1000000))"
proof -
  let ?h = "heap1 (frame1 [Pts [0], Pts [5], Pts [10]]) (frame1 [Seg 0 10]) (mask1 [Seg 0 4, Seg 2 7])"
  have ok: "list_all (\<lambda>g. cell_ok lib1 [Seg 0 5, Seg 5 10] g) [Seg 0 4, Seg 2 7]"
    by (simp add: cell_ok_def cell_meff_lib1)
  obtain h' r where res: "meff lib1 ?h 0 1 2 = Inr (h', r)"
    using meff_lib1_returns[OF ok, of "frame1 [Seg 0 10]"] by blast
  have l: "0 < fresh ?h" and b: "1 < fresh ?h"
    by (simp_all add: heap1_def)
  have wf: "wf_gdf (objs ?h 2)" and d: "distinct (index (objs ?h 2))"
    and i: "1 < length (index (objs ?h 2))"
    and a: "0 < area lib1 (geometry (objs ?h 2) ! 1)"
    by (simp_all add: heap1_def mask1_def wf_gdf_def lib1_fields upt_rec)
  from meff_value_formula[OF res l b wf d i sindex_sound_lib1 a] res show ?thesis
    by (simp add: heap1_def mask1_def patches_lib1 upt_rec lib1_fields)
qed

text \<open>
  Claim C3, as stated: \<open>meff\<close> adds the column to the caller's mask object and returns
  that object. It does not: line 42 rebinds \<open>mask\<close> to a copy. In the example the mask is
  the object at reference 2; the call returns the new reference 3, and the object at 2 is
  the one the caller passed, with its single column \<open>name\<close>.
\<close>

theorem meff_in_place_counterexample:
  "result_ref (meff lib1 (heap1 (frame1 [Pts [0], Pts [5], Pts [10]]) (frame1 [Seg 0 10])
                            (mask1 [Seg 0 4, Seg 2 7])) 0 1 2) = Some 3
   \<and> result_obj (meff lib1 (heap1 (frame1 [Pts [0], Pts [5], Pts [10]]) (frame1 [Seg 0 10])
                              (mask1 [Seg 0 4, Seg 2 7])) 0 1 2) 2 = Some (mask1 [Seg 0 4, Seg 2 7])
   \<and> map fst (columns (mask1 [Seg 0 4, Seg 2 7])) = [''name'']"
proof -
  let ?h = "heap1 (frame1 [Pts [0], Pts [5], Pts [10]]) (frame1 [Seg 0 10]) (mask1 [Seg 0 4, Seg 2 7])"
  have ok: "list_all (\<lambda>g. cell_ok lib1 [Seg 0 5, Seg 5 10] g) [Seg 0 4, Seg 2 7]"
    by (simp add: cell_ok_def cell_meff_lib1)
  obtain h' r where res: "meff lib1 ?h 0 1 2 = Inr (h', r)"
    using meff_lib1_returns[OF ok, of "frame1 [Seg 0 10]"] by blast
  have l: "0 < fresh ?h" and b: "1 < fresh ?h"
    by (simp_all add: heap1_def)
  from meff_InrD(1,2)[OF res l b] res show ?thesis
    by (simp add: result_ref_def result_obj_def heap1_def mask1_def)
qed

text \<open>
  Claim C3, amended. \<open>meff\<close> returns a new object, a copy of the mask that has a column
  \<open>meff\<close>, and changes no object that existed before the call: the caller's mask stays
  as it was.
\<close>

theorem meff_returns_copy:
  assumes "meff lib h l b m = Inr (h', r)" "l < fresh h" "b < fresh h" "m < fresh h"
  shows "r = fresh h \<and> r \<noteq> m \<and> (\<forall>x < fresh h. objs h' x = objs h x)
       \<and> ''meff'' \<in> fst ` set (columns (objs h' r))
       \<and> index (objs h' r) = index (objs h m) \<and> geometry (objs h' r) = geometry (objs h m)"
proof -
  let ?ps = "patches_of lib (objs h l) (objs h b)"
  have "fst ` set (columns (meff_frame lib ?ps (objs h m))) =
        fst ` set (columns (setitem (objs h m) ''meff'' NaN))"
    by (force simp: meff_frame_def fold_write_columns image_iff split: if_splits)
  with setitem_has_col[of "''meff''" "objs h m" NaN]
  have "''meff'' \<in> fst ` set (columns (meff_frame lib ?ps (objs h m)))" by simp
  with meff_InrD(1,2)[OF assms(1-3)] assms(4) show ?thesis by simp
qed

theorem meff_returns_copy_witness:
  "\<exists>h' r. meff lib1 (heap1 (frame1 [Pts [0], Pts [5], Pts [10]]) (frame1 [Seg 0 10])
                        (mask1 [Seg 0 4, Seg 2 7])) 0 1 2 = Inr (h', r)
         \<and> r = 3 \<and> objs h' 2 = mask1 [Seg 0 4, Seg 2 7]
         \<and> ''meff'' \<in> fst ` set (columns (objs h' r))
         \<and> ''meff'' \<notin> fst ` set (columns (objs h' 2))"
proof -
  let ?h = "heap1 (frame1 [Pts [0], Pts [5], Pts [10]]) (frame1 [Seg 0 10]) (mask1 [Seg 0 4, Seg 2 7])"
  have ok: "list_all (\<lambda>g. cell_ok lib1 [Seg 0 5, Seg 5 10] g) [Seg 0 4, Seg 2 7]"
    by (simp add: cell_ok_def cell_meff_lib1)
  obtain h' r where res: "meff lib1 ?h 0 1 2 = Inr (h', r)"
    using meff_lib1_returns[OF ok, of "frame1 [Seg 0 10]"] by blast
  have l: "0 < fresh ?h" and b: "1 < fresh ?h" and m: "2 < fresh ?h"
    by (simp_all add: heap1_def)
  note c = meff_returns_copy[OF res l b m]
  from c have r: "r = 3" by (simp add: heap1_def)
  from c have "\<forall>x < fresh ?h. objs h' x = objs ?h x" by blast
  with m have o: "objs h' 2 = objs ?h 2" by blast
  from c have n: "''meff'' \<in> fst ` set (columns (objs h' r))" by blast
  from res r o n show ?thesis
    by (simp add: heap1_def mask1_def)
qed

text \<open>
  Claim C4. The division of line 69 is not guarded: when the mask has a crs and a region
  of area zero, the call raises ZeroDivisionError and returns no table.
\<close>

theorem meff_zero_area_raises:
  assumes "sindex_sound lib" "crs (objs h m) \<noteq> None" "wf_gdf (objs h m)"
    and "g \<in> set (geometry (objs h m))" "area lib g = 0"
  shows "meff lib h l b m = Inl ZeroDivisionError"
proof -
  from assms(2) obtain c where c: "crs (objs h m) = Some c" by blast
  from assms(3) have len: "length (geometry (objs h m)) = length (index (objs h m))"
    by (simp add: wf_gdf_def)
  from assms(4) obtain i where "i < length (geometry (objs h m))" "geometry (objs h m) ! i = g"
    by (auto simp: in_set_conv_nth)
  with len have "(index (objs h m) ! i, g) \<in> set (zip (index (objs h m)) (geometry (objs h m)))"
    by (auto simp: set_zip)
  with assms(5) have ex: "\<exists>c \<in> set (zip (index (objs h m)) (geometry (objs h m))). area lib (snd c) = 0"
    by force
  show ?thesis
    using cells_loop_zero_division[OF assms(1) ex] c
    by (simp add: meff_def copy_def Let_def itertuples_def)
qed

theorem meff_zero_area_raises_witness:
  "meff lib1 (heap1 (frame1 [Pts [0], Pts [5], Pts [10]]) (frame1 [Seg 0 10])
             (mask1 [Seg 0 4, Seg 3 3])) 0 1 2 = Inl ZeroDivisionError"
proof -
  let ?h = "heap1 (frame1 [Pts [0], Pts [5], Pts [10]]) (frame1 [Seg 0 10]) (mask1 [Seg 0 4, Seg 3 3])"
  have c: "crs (objs ?h 2) \<noteq> None" and wf: "wf_gdf (objs ?h 2)"
    and g: "Seg 3 3 \<in> set (geometry (objs ?h 2))" and a: "area lib1 (Seg 3 3) = 0"
    by (simp_all add: heap1_def mask1_def wf_gdf_def lib1_fields)
  from meff_zero_area_raises[OF sindex_sound_lib1 c wf g a] show ?thesis .
qed

lemma all_less_two: "(\<forall>k<2::nat. P k) \<longleftrightarrow> P 0 \<and> P 1"
  by (auto simp: less_2_cases_iff)

text \<open>
  Claim C5. When no patch intersects a region, its \<open>meff\<close> value is 0. A call that
  returns has divided by the area of every region, so the area is not zero.
\<close>

theorem meff_no_fragment_zero:
  assumes "meff lib h l b m = Inr (h', r)" "l < fresh h" "b < fresh h"
    and "wf_gdf (objs h m)" "distinct (index (objs h m))" "i < length (index (objs h m))"
    and "0 < area lib (geometry (objs h m) ! i)"
    and "\<forall>f \<in> set (patches_of lib (objs h l) (objs h b)). \<not> intersects lib f (geometry (objs h m) ! i)"
  shows "cell_at (objs h' r) ''meff'' i = Some (Float 0)"
  using meff_cell_at[OF assms(1-6)] cell_val_no_fragment[OF _ assms(8)]
  by simp

theorem meff_no_fragment_zero_witness:
  "\<exists>h' r. meff lib1 (heap1 (frame1 [Pts [0], Pts [5], Pts [10]]) (frame1 [Seg 0 10])
                        (mask1 [Seg 0 4, Seg 20 30])) 0 1 2 = Inr (h', r)
         \<and> cell_at (objs h' r) ''meff'' 1 = Some (Float 0)"
proof -
  let ?h = "heap1 (frame1 [Pts [0], Pts [5], Pts [10]]) (frame1 [Seg 0 10]) (mask1 [Seg 0 4, Seg 20 30])"
  have ok: "list_all (\<lambda>g. cell_ok lib1 [Seg 0 5, Seg 5 10] g) [Seg 0 4, Seg 20 30]"
    by (simp add: cell_ok_def cell_meff_lib1)
  obtain h' r where res: "meff lib1 ?h 0 1 2 = Inr (h', r)"
    using meff_lib1_returns[OF ok, of "frame1 [Seg 0 10]"] by blast
  have l: "0 < fresh ?h" and b: "1 < fresh ?h"
    by (simp_all add: heap1_def)
  have wf: "wf_gdf (objs ?h 2)" and d: "distinct (index (objs ?h 2))"
    and i: "1 < length (index (objs ?h 2))"
    and a: "0 < area lib1 (geometry (objs ?h 2) ! 1)"
    by (simp_all add: heap1_def mask1_def wf_gdf_def lib1_fields upt_rec)
  have n: "\<forall>f \<in> set (patches_of lib1 (objs ?h 0) (objs ?h 1)). \<not> intersects lib1 f (geometry (objs ?h 2) ! 1)"
    by (simp add: heap1_def mask1_def patches_lib1 lib1_fields)
  from meff_no_fragment_zero[OF res l b wf d i a n] res show ?thesis
    by blast
qed

text \<open>
  Claim C8. The \<open>meff\<close> value of a region of positive area is not negative, for a library
  whose areas are not negative.
\<close>

theorem meff_nonneg:
  assumes "meff lib h l b m = Inr (h', r)" "l < fresh h" "b < fresh h"
    and "wf_gdf (objs h m)" "distinct (index (objs h m))" "i < length (index (objs h m))"
    and "area_nonneg lib" "0 < area lib (geometry (objs h m) ! i)"
  shows "\<exists>v. cell_at (objs h' r) ''meff'' i = Some (Float v) \<and> 0 \<le> v"
  using meff_cell_at(1)[OF assms(1-6)] cell_val_nonneg[OF assms(7)]
  by blast

theorem meff_nonneg_witness:
  "\<exists>h' r v. meff lib1 (heap1 (frame1 [Pts [0], Pts [5], Pts [10]]) (frame1 [Seg 0 10])
                        (mask1 [Seg 0 4, Seg 2 7])) 0 1 2 = Inr (h', r)
         \<and> cell_at (objs h' r) ''meff'' 0 = Some (Float v) \<and> 0 \<le> v"
proof -
  let ?h = "heap1 (frame1 [Pts [0], Pts [5], Pts [10]]) (frame1 [Seg 0 10]) (mask1 [Seg 0 4, Seg 2 7])"
  have ok: "list_all (\<lambda>g. cell_ok lib1 [Seg 0 5, Seg 5 10] g) [Seg 0 4, Seg 2 7]"
    by (simp add: cell_ok_def cell_meff_lib1)
  obtain h' r where res: "meff lib1 ?h 0 1 2 = Inr (h', r)"
    using meff_lib1_returns[OF ok, of "frame1 [Seg 0 10]"] by blast
  have l: "0 < fresh ?h" and b: "1 < fresh ?h"
    by (simp_all add: heap1_def)
  have wf: "wf_gdf (objs ?h 2)" and d: "distinct (index (objs ?h 2))"
    and i: "0 < length (index (objs ?h 2))"
    and a: "0 < area lib1 (geometry (objs ?h 2) ! 0)"
    by (simp_all add: heap1_def mask1_def wf_gdf_def lib1_fields upt_rec)
  from meff_nonneg[OF res l b wf d i area_nonneg_lib1 a] res show ?thesis
    by blast
qed

text \<open>
  Claim C6. Permuting the rows of the mask does not change the value of any region: the
  call on the permuted mask returns too, and the row at position \<open>k\<close> of its result has the
  index label and the \<open>meff\<close> value that the row at position \<open>p ! k\<close> has in the result
  for the mask in its first order.
\<close>

theorem meff_order_independent:
  assumes "meff lib h l b m = Inr (h1, r1)" "l < fresh h" "b < fresh h" "l \<noteq> m" "b \<noteq> m"
    and "wf_gdf (objs h m)" "distinct (index (objs h m))"
    and "mset p = mset [0..<length (index (objs h m))]"
  shows "\<exists>h2 r2. meff lib (h\<lparr>objs := (objs h)(m := permute_rows p (objs h m))\<rparr>) l b m = Inr (h2, r2)
           \<and> (\<forall>k < length p. index (objs h2 r2) ! k = index (objs h1 r1) ! (p ! k)
                 \<and> cell_at (objs h2 r2) ''meff'' k = cell_at (objs h1 r1) ''meff'' (p ! k))"
proof -
  let ?df = "objs h m"
  let ?n = "length (index ?df)"
  let ?pdf = "permute_rows p ?df"
  let ?hp = "h\<lparr>objs := (objs h)(m := ?pdf)\<rparr>"
  let ?ps = "patches_of lib (objs h l) (objs h b)"
  from assms(8) have setp: "set p = {0..<?n}" and dp: "distinct p"
    using mset_eq_setD[OF assms(8)] mset_eq_imp_distinct_iff[OF assms(8)] by auto
  have inr: "p ! k < ?n" if "k < length p" for k
    using that setp nth_mem[of k p] by auto
  from assms(6) have len: "length (geometry ?df) = ?n" by (simp add: wf_gdf_def)
  have ok: "cell_ok lib ?ps (geometry ?df ! i)" if "i < ?n" for i
    by (rule meff_cell_at(2)[OF assms(1-3,6,7) that])
  have pidx: "index ?pdf = map (\<lambda>k. index ?df ! k) p"
    and pgeo: "geometry ?pdf = map (\<lambda>k. geometry ?df ! k) p"
    and pcrs: "crs ?pdf = crs ?df"
    by (simp_all add: permute_rows_def)
  have hp: "objs ?hp l = objs h l" "objs ?hp b = objs h b" "objs ?hp m = ?pdf" "fresh ?hp = fresh h"
    using assms(4,5) by simp_all
  have okp: "list_all (\<lambda>c. cell_ok lib (patches_of lib (objs ?hp l) (objs ?hp b)) (snd c))
               (itertuples (objs ?hp m))"
    unfolding hp using ok setp
    by (auto simp: list_all_iff itertuples_def pidx pgeo dest!: set_zip_rightD)
  have crsp: "crs (objs ?hp m) \<noteq> None"
    unfolding hp pcrs by (rule meff_InrD(3)[OF assms(1-3)])
  have lp: "l < fresh ?hp" and bp: "b < fresh ?hp" using assms(2,3) by simp_all
  note ret = meff_returns[OF lp bp crsp okp]
  let ?h2 = "?hp\<lparr>objs := (objs ?hp)(fresh ?hp := meff_frame lib ?ps ?pdf), fresh := Suc (fresh ?hp)\<rparr>"
  have res2: "meff lib ?hp l b m = Inr (?h2, fresh h)"
    using ret unfolding hp by simp
  have fr2: "objs ?h2 (fresh h) = meff_frame lib ?ps ?pdf" by simp
  have fr1: "objs h1 r1 = meff_frame lib ?ps ?df"
    using meff_InrD(1,2)[OF assms(1-3)] by simp
  have dpi: "distinct (index ?pdf)"
    unfolding pidx using dp assms(7) setp
    by (auto simp: distinct_map inj_on_def nth_eq_iff_index_eq)
  have lenp: "length (geometry ?pdf) = length (index ?pdf)" by (simp add: pidx pgeo)
  have "index (objs ?h2 (fresh h)) ! k = index (objs h1 r1) ! (p ! k)
        \<and> cell_at (objs ?h2 (fresh h)) ''meff'' k = cell_at (objs h1 r1) ''meff'' (p ! k)"
    if k: "k < length p" for k
  proof -
    have kp: "k < length (index ?pdf)" using k by (simp add: pidx)
    have a: "cell_at (meff_frame lib ?ps ?pdf) ''meff'' k =
             Some (Float (cell_val lib ?ps (geometry ?pdf ! k)))"
      by (rule cell_at_meff_frame[OF lenp dpi kp])
    have c: "cell_at (meff_frame lib ?ps ?df) ''meff'' (p ! k) =
             Some (Float (cell_val lib ?ps (geometry ?df ! (p ! k))))"
      by (rule cell_at_meff_frame[OF len assms(7) inr[OF k]])
    have g: "geometry ?pdf ! k = geometry ?df ! (p ! k)" using k by (simp add: pgeo)
    have i: "index (meff_frame lib ?ps ?pdf) ! k = index (meff_frame lib ?ps ?df) ! (p ! k)"
      using k by (simp add: pidx)
    from a c g i show ?thesis unfolding fr1 fr2 by simp
  qed
  with res2 show ?thesis by blast
qed

theorem meff_order_independent_witness:
  "\<exists>h1 r1 h2 r2.
      meff lib1 (heap1 (frame1 [Pts [0], Pts [5], Pts [10]]) (frame1 [Seg 0 10])
                  (mask1 [Seg 0 4, Seg 2 7])) 0 1 2 = Inr (h1, r1)
    \<and> meff lib1 (heap1 (frame1 [Pts [0], Pts [5], Pts [10]]) (frame1 [Seg 0 10])
                  (permute_rows [1, 0] (mask1 [Seg 0 4, Seg 2 7]))) 0 1 2 = Inr (h2, r2)
    \<and> index (objs h2 r2) ! 0 = index (objs h1 r1) ! 1
    \<and> cell_at (objs h2 r2) ''meff'' 0 = cell_at (objs h1 r1) ''meff'' 1
    \<and> index (objs h2 r2) ! 1 = index (objs h1 r1) ! 0
    \<and> cell_at (objs h2 r2) ''meff'' 1 = cell_at (objs h1 r1) ''meff'' 0"
proof -
  let ?m = "mask1 [Seg 0 4, Seg 2 7]"
  let ?h = "heap1 (frame1 [Pts [0], Pts [5], Pts [10]]) (frame1 [Seg 0 10]) ?m"
  have ok: "list_all (\<lambda>g. cell_ok lib1 [Seg 0 5, Seg 5 10] g) [Seg 0 4, Seg 2 7]"
    by (simp add: cell_ok_def cell_meff_lib1)
  obtain h1 r1 where res: "meff lib1 ?h 0 1 2 = Inr (h1, r1)"
    using meff_lib1_returns[OF ok, of "frame1 [Seg 0 10]"] by blast
  have l: "0 < fresh ?h" and b: "1 < fresh ?h" and lm: "(0::nat) \<noteq> 2" and bm: "(1::nat) \<noteq> 2"
    by (simp_all add: heap1_def)
  have wf: "wf_gdf (objs ?h 2)" and d: "distinct (index (objs ?h 2))"
    and p: "mset [1, 0] = mset [0..<length (index (objs ?h 2))]"
    by (simp_all add: heap1_def mask1_def wf_gdf_def upt_rec)
  have hp: "?h\<lparr>objs := (objs ?h)(2 := permute_rows [1, 0] (objs ?h 2))\<rparr> =
            heap1 (frame1 [Pts [0], Pts [5], Pts [10]]) (frame1 [Seg 0 10]) (permute_rows [1, 0] ?m)"
    by (auto simp: heap1_def fun_eq_iff)
  from meff_order_independent[OF res l b lm bm wf d p] obtain h2 r2 where
    "meff lib1 (?h\<lparr>objs := (objs ?h)(2 := permute_rows [1, 0] (objs ?h 2))\<rparr>) 0 1 2 = Inr (h2, r2)"
    "\<forall>k < length [1::nat, 0]. index (objs h2 r2) ! k = index (objs h1 r1) ! ([1, 0] ! k)
        \<and> cell_at (objs h2 r2) ''meff'' k = cell_at (objs h1 r1) ''meff'' ([1, 0] ! k)"
    by blast
  then have "meff lib1 (heap1 (frame1 [Pts [0], Pts [5], Pts [10]]) (frame1 [Seg 0 10])
                  (permute_rows [1, 0] ?m)) 0 1 2 = Inr (h2, r2)"
    and "index (objs h2 r2) ! 0 = index (objs h1 r1) ! 1
       \<and> cell_at (objs h2 r2) ''meff'' 0 = cell_at (objs h1 r1) ''meff'' 1"
    and "index (objs h2 r2) ! 1 = index (objs h1 r1) ! 0
       \<and> cell_at (objs h2 r2) ''meff'' 1 = cell_at (objs h1 r1) ''meff'' 0"
    unfolding hp by (simp_all add: all_less_two)
  with res show ?thesis by blast
qed

section \<open>Properties of to_centroids\<close>

lemma foldl_plus_sum_list:
  fixes a :: "'a::len word"
  shows "foldl (+) a ws = a + sum_list ws"
  by (induction ws arbitrary: a) (simp_all add: add.assoc)

lemma uint_sum_list:
  fixes ws :: "'a::len word list"
  shows "uint (sum_list ws) = sum_list (map uint ws) mod 2 ^ LENGTH('a)"
proof (induction ws)
  case Nil
  show ?case by simp
next
  case (Cons w ws)
  have "uint (w + sum_list ws) = (uint w + uint (sum_list ws)) mod 2 ^ LENGTH('a)"
    by (simp add: uint_word_ariths)
  also have "\<dots> = (uint w + sum_list (map uint ws)) mod 2 ^ LENGTH('a)"
    by (simp add: Cons.IH mod_add_right_eq)
  finally show ?case by simp
qed

lemma uint_band_sum:
  fixes src :: "('a::len word, 'p) dataset"
  shows "uint (band_sum src r c) =
         (\<Sum>i\<leftarrow>[0..<fst (shape src)]. uint (read src i r c)) mod 2 ^ LENGTH('a)"
  by (simp add: band_sum_def foldl_plus_sum_list uint_sum_list comp_def)

lemma unmasked_wrapped_sum:
  fixes src :: "('a::len word, 'p) dataset"
  shows "unmasked src nodata =
         filter (\<lambda>(r, c). (\<Sum>i\<leftarrow>[0..<fst (shape src)]. uint (read src i r c)) mod 2 ^ LENGTH('a) \<noteq> nodata)
                (pixels src)"
  by (simp add: unmasked_def nodata_mask_def uint_band_sum)

text \<open>
  Claim C9. A pixel is left out of the output points exactly when the sum of its band
  values equals \<open>nodata\<close>. The code breaks this where the sum leaves the range of the
  array's type: \<open>sum(arr)\<close> adds the bands in that type, so the mask of line 41 compares
  the sum modulo \<open>2 ^ LENGTH('a)\<close> (lemma \<open>unmasked_wrapped_sum\<close>). For the raster of 8-bit
  pixels with the value 128 in each of its two bands and \<open>nodata = 0\<close>, the sum of the
  values of the one pixel is 256, which is not \<open>nodata\<close>, and no band holds \<open>nodata\<close>;
  the 8-bit sum is 0, the pixel is masked and the output has no point. The comment above
  line 41 says the mask is true where the raster has a \<open>nodata\<close> value in every band.
\<close>

theorem to_centroids_overflow_masks_pixel:
  "to_centroids (\<lambda>e0 e p. p) raster_overflow 0 None =
     Inr \<lparr>index = [], geometry = [], columns = [(''b1'', []), (''b2'', [])],
          crs = Some (CRS (Some 3035))\<rparr>
   \<and> pixels raster_overflow = [(0, 0)]
   \<and> uint (read raster_overflow 0 0 0) + uint (read raster_overflow 1 0 0) = 256
   \<and> uint (read raster_overflow 0 0 0) \<noteq> 0 \<and> uint (read raster_overflow 1 0 0) \<noteq> 0
   \<and> uint (band_sum raster_overflow 0 0) = 0"
  by (simp add: to_centroids_def raster_overflow_def unmasked_def pixels_def nodata_mask_def
        band_sum_def upt_rec str_nat.simps)

section \<open>Properties of merge_features\<close>



















end
